theory Spec2Isabelle
  imports Complex_Main
begin

section \<open>JavaScript numbers\<close>

text \<open>
  The component computes on JavaScript numbers.  The model keeps the three special
  values the code can produce or meet (\<open>Infinity\<close>, \<open>-Infinity\<close>, \<open>NaN\<close>) and
  takes every finite value as an exact real: rounding, overflow of a finite result to an
  infinity and the sign of zero are outside the model.  \<open>NaN\<close> also stands for
  \<open>undefined\<close> where the code uses it as a number (a position with a missing
  component), since \<open>undefined\<close> converts to \<open>NaN\<close> in every operation below.
\<close>

datatype jsnum = NaN | NegInf | Fin real | PosInf

text \<open>\<open>a > b\<close>: false as soon as one side is \<open>NaN\<close>.\<close>

fun js_gt :: "jsnum \<Rightarrow> jsnum \<Rightarrow> bool" where
  "js_gt NaN b = False"
| "js_gt a NaN = False"
| "js_gt NegInf b = False"
| "js_gt a PosInf = False"
| "js_gt PosInf b = True"
| "js_gt (Fin a) NegInf = True"
| "js_gt (Fin a) (Fin b) = (b < a)"

text \<open>\<open>a < b\<close> is \<open>b > a\<close> with the operands exchanged.\<close>

definition js_lt :: "jsnum \<Rightarrow> jsnum \<Rightarrow> bool" where
  "js_lt a b = js_gt b a"

text \<open>\<open>a <= b\<close>: false as soon as one side is \<open>NaN\<close>.\<close>

fun js_le :: "jsnum \<Rightarrow> jsnum \<Rightarrow> bool" where
  "js_le NaN b = False"
| "js_le a NaN = False"
| "js_le NegInf b = True"
| "js_le a PosInf = True"
| "js_le PosInf b = False"
| "js_le (Fin a) NegInf = False"
| "js_le (Fin a) (Fin b) = (a \<le> b)"

fun js_neg :: "jsnum \<Rightarrow> jsnum" where
  "js_neg NaN = NaN"
| "js_neg NegInf = PosInf"
| "js_neg (Fin a) = Fin (- a)"
| "js_neg PosInf = NegInf"

fun js_add :: "jsnum \<Rightarrow> jsnum \<Rightarrow> jsnum" where
  "js_add NaN b = NaN"
| "js_add a NaN = NaN"
| "js_add PosInf NegInf = NaN"
| "js_add NegInf PosInf = NaN"
| "js_add PosInf b = PosInf"
| "js_add a PosInf = PosInf"
| "js_add NegInf b = NegInf"
| "js_add a NegInf = NegInf"
| "js_add (Fin a) (Fin b) = Fin (a + b)"

definition js_sub :: "jsnum \<Rightarrow> jsnum \<Rightarrow> jsnum" where
  "js_sub a b = js_add a (js_neg b)"

text \<open>An infinity times zero is \<open>NaN\<close>; otherwise the signs multiply.\<close>

fun js_mul :: "jsnum \<Rightarrow> jsnum \<Rightarrow> jsnum" where
  "js_mul NaN b = NaN"
| "js_mul a NaN = NaN"
| "js_mul (Fin a) (Fin b) = Fin (a * b)"
| "js_mul PosInf (Fin b) = (if b = 0 then NaN else if 0 < b then PosInf else NegInf)"
| "js_mul NegInf (Fin b) = (if b = 0 then NaN else if 0 < b then NegInf else PosInf)"
| "js_mul (Fin a) PosInf = (if a = 0 then NaN else if 0 < a then PosInf else NegInf)"
| "js_mul (Fin a) NegInf = (if a = 0 then NaN else if 0 < a then NegInf else PosInf)"
| "js_mul PosInf PosInf = PosInf"
| "js_mul NegInf NegInf = PosInf"
| "js_mul PosInf NegInf = NegInf"
| "js_mul NegInf PosInf = NegInf"

text \<open>
  Division.  A zero divisor is taken as \<open>+0\<close>: a non-zero finite value over it is the
  infinity of the dividend's sign, and \<open>0 / 0\<close> is \<open>NaN\<close>.
\<close>

fun js_div :: "jsnum \<Rightarrow> jsnum \<Rightarrow> jsnum" where
  "js_div NaN b = NaN"
| "js_div a NaN = NaN"
| "js_div (Fin a) (Fin b) =
     (if b = 0 then (if a = 0 then NaN else if 0 < a then PosInf else NegInf)
      else Fin (a / b))"
| "js_div (Fin a) PosInf = Fin 0"
| "js_div (Fin a) NegInf = Fin 0"
| "js_div PosInf (Fin b) = (if 0 \<le> b then PosInf else NegInf)"
| "js_div NegInf (Fin b) = (if 0 \<le> b then NegInf else PosInf)"
| "js_div PosInf PosInf = NaN"
| "js_div PosInf NegInf = NaN"
| "js_div NegInf PosInf = NaN"
| "js_div NegInf NegInf = NaN"

text \<open>\<open>Math.min\<close> and \<open>Math.max\<close> of two numbers: \<open>NaN\<close> if one of them is.\<close>

fun js_min :: "jsnum \<Rightarrow> jsnum \<Rightarrow> jsnum" where
  "js_min NaN b = NaN"
| "js_min a NaN = NaN"
| "js_min a b = (if js_gt a b then b else a)"

fun js_max :: "jsnum \<Rightarrow> jsnum \<Rightarrow> jsnum" where
  "js_max NaN b = NaN"
| "js_max a NaN = NaN"
| "js_max a b = (if js_gt b a then b else a)"

section \<open>The boundary document\<close>

text \<open>
  \<open>geojson\<close> is the value \<open>JSON.parse\<close> returned, typed \<open>any\<close> in the source.  The
  model covers what the code reads of it: the document may be \<open>null\<close>/\<open>undefined\<close>
  (\<open>None\<close>); its \<open>features\<close> field may be missing or falsy (\<open>None\<close>) and is otherwise an
  array of features; a feature's \<open>geometry\<close> may be \<open>null\<close> (\<open>None\<close>) and otherwise has
  a \<open>type\<close> string and \<open>coordinates\<close>, an array of rings; a ring is an array of
  positions \<open>[lng, lat]\<close>.  Values of any other shape (a \<open>features\<close> field that is
  not an array, a feature that is not an object) are outside the model.
\<close>

type_synonym position = "jsnum \<times> jsnum"

record geojson_geometry =
  gtype :: string
  coordinates :: "position list list"

record geojson_feature =
  geometry :: "geojson_geometry option"

record geojson_doc =
  features :: "geojson_feature list option"

type_synonym geojson = "geojson_doc option"

datatype error = TypeError | SyntaxError

section \<open>pointInPolygon\<close>

text \<open>
  The condition of the \<open>if\<close> in the loop body, for the point \<open>[x, y]\<close>, the vertex
  \<open>polygon[i] = [xi, yi]\<close> and the vertex \<open>polygon[j] = [xj, yj]\<close>:
  \<^verbatim>\<open>((yi > y) !== (yj > y)) && (x < (xj - xi) * (y - yi) / (yj - yi) + xi)\<close>
\<close>

definition crossing :: "jsnum \<Rightarrow> jsnum \<Rightarrow> position \<Rightarrow> position \<Rightarrow> bool" where
  "crossing x y vi vj =
     (case vi of (xi, yi) \<Rightarrow> case vj of (xj, yj) \<Rightarrow>
        (js_gt yi y \<noteq> js_gt yj y) \<and>
        js_lt x (js_add (js_div (js_mul (js_sub xj xi) (js_sub y yi)) (js_sub yj yi)) xi))"

text \<open>
  \<^verbatim>\<open>for (let i = 0, j = polygon.length - 1; i < polygon.length; j = i++)\<close>
  The loop reads \<open>polygon[i]\<close> and \<open>polygon[j]\<close> only while \<open>i < polygon.length\<close>,
  where both indices are in range.
\<close>

function pointInPolygon_loop ::
  "jsnum \<Rightarrow> jsnum \<Rightarrow> position list \<Rightarrow> nat \<Rightarrow> nat \<Rightarrow> bool \<Rightarrow> bool" where
  "pointInPolygon_loop x y polygon i j inside =
     (if i < length polygon
      then pointInPolygon_loop x y polygon (i + 1) i
             (if crossing x y (polygon ! i) (polygon ! j) then \<not> inside else inside)
      else inside)"
  by pat_completeness auto
termination
  by (relation "measure (\<lambda>(x, y, polygon, i, j, inside). length polygon - i)") auto

declare pointInPolygon_loop.simps [simp del]

text \<open>
  On an empty polygon \<open>j\<close> starts at \<open>-1\<close> and is never read; the model starts it at
  \<open>0\<close> there.
\<close>

definition pointInPolygon :: "position \<Rightarrow> position list \<Rightarrow> bool" where
  "pointInPolygon point polygon =
     (case point of (x, y) \<Rightarrow>
        pointInPolygon_loop x y polygon 0 (length polygon - 1) False)"

section \<open>isPointInBoundary\<close>

text \<open>
  The \<open>for ... of\<close> loop over \<open>geojson.features\<close>.  Reading \<open>.type\<close> of a \<open>null\<close>
  geometry throws a TypeError, and so does \<open>polygon.length\<close> when \<open>coordinates[0]\<close>
  is \<open>undefined\<close> (a Polygon with no ring).
\<close>

fun isPointInBoundary_features :: "jsnum \<Rightarrow> jsnum \<Rightarrow> geojson_feature list \<Rightarrow> error + bool" where
  "isPointInBoundary_features lat lng [] = Inr False"
| "isPointInBoundary_features lat lng (feature # rest) =
     (case geometry feature of
        None \<Rightarrow> Inl TypeError
      | Some g \<Rightarrow>
          if gtype g = ''Polygon''
          then (case coordinates g of
                  [] \<Rightarrow> Inl TypeError
                | ring # _ \<Rightarrow>
                    if pointInPolygon (lng, lat) ring then Inr True
                    else isPointInBoundary_features lat lng rest)
          else isPointInBoundary_features lat lng rest)"

definition isPointInBoundary :: "jsnum \<Rightarrow> jsnum \<Rightarrow> geojson \<Rightarrow> error + bool" where
  "isPointInBoundary lat lng geojson =
     (case geojson of
        None \<Rightarrow> Inr False
      | Some doc \<Rightarrow>
          (case features doc of
             None \<Rightarrow> Inr False
           | Some fs \<Rightarrow> isPointInBoundary_features lat lng fs))"

section \<open>getBoundaryBounds\<close>

record bounds =
  minLat :: jsnum
  maxLat :: jsnum
  minLng :: jsnum
  maxLng :: jsnum

text \<open>The callback of the inner \<open>forEach\<close>, for one position \<open>[lng, lat]\<close>.\<close>

definition scanVertex :: "position \<Rightarrow> bounds \<Rightarrow> bounds" where
  "scanVertex v b =
     (case v of (lng, lat) \<Rightarrow>
        \<lparr> minLat = js_min (minLat b) lat,
          maxLat = js_max (maxLat b) lat,
          minLng = js_min (minLng b) lng,
          maxLng = js_max (maxLng b) lng \<rparr>)"

text \<open>
  The outer \<open>forEach\<close>.  A \<open>null\<close> geometry throws at \<open>.type\<close>; a Polygon with no ring
  throws at \<open>coordinates[0].forEach\<close>.
\<close>

fun getBoundaryBounds_features :: "geojson_feature list \<Rightarrow> bounds \<Rightarrow> error + bounds" where
  "getBoundaryBounds_features [] b = Inr b"
| "getBoundaryBounds_features (feature # rest) b =
     (case geometry feature of
        None \<Rightarrow> Inl TypeError
      | Some g \<Rightarrow>
          if gtype g = ''Polygon''
          then (case coordinates g of
                  [] \<Rightarrow> Inl TypeError
                | ring # _ \<Rightarrow> getBoundaryBounds_features rest (fold scanVertex ring b))
          else getBoundaryBounds_features rest b)"

definition initialBounds :: bounds where
  "initialBounds = \<lparr> minLat = PosInf, maxLat = NegInf, minLng = PosInf, maxLng = NegInf \<rparr>"

definition getBoundaryBounds :: "geojson \<Rightarrow> error + bounds" where
  "getBoundaryBounds geojson =
     (case geojson of
        None \<Rightarrow> Inr initialBounds
      | Some doc \<Rightarrow>
          (case features doc of
             None \<Rightarrow> Inr initialBounds
           | Some fs \<Rightarrow> getBoundaryBounds_features fs initialBounds))"

section \<open>simulateCollection\<close>

record StreetViewResult =
  panoid :: string
  latitude :: jsnum
  longitude :: jsnum
  timestamp :: string

text \<open>
  A \<open>File\<close> is represented by what \<open>JSON.parse(await file.text())\<close> evaluates to: the
  parsed document, or the exception thrown.
\<close>

type_synonym boundary_file = "error + geojson"

record CollectorConfig =
  boundingFile :: "boundary_file option"
  startingUrl :: string
  targetCount :: int
  density :: "real option"
  fixedZoom :: "int option"

datatype toast = NoBoundaryFile | CollectionCompleted int | CollectionFailed

text \<open>
  The component's React state, the toasts shown so far, and the number of calls of
  \<open>Math.random\<close> made so far.
\<close>

record state =
  isCollecting :: bool
  progress :: real
  results :: "StreetViewResult list"
  currentStatus :: string
  toasts :: "toast list"
  randomCalls :: nat

text \<open>
  The ambient sources: the sequence of values \<open>Math.random()\<close> returns, the base-36
  rendering \<open>toString(36)\<close> of a number, and \<open>new Date().toISOString()\<close> during
  iteration \<open>i\<close>.
\<close>

record env =
  random :: "nat \<Rightarrow> real"
  toString36 :: "real \<Rightarrow> string"
  now :: "nat \<Rightarrow> string"

definition statusMessages :: "string list" where
  "statusMessages =
     [''Parsing GeoJSON boundary file...'',
      ''Initializing browser automation...'',
      ''Loading starting URL with Playwright...'',
      ''Locating pegman icon...'',
      ''Detecting Street View blue lines...'',
      ''Capturing network requests...'',
      ''Validating coordinates within bounds...'',
      ''Adjusting map position...'',
      ''Continuing data collection...'']"

text \<open>
  The \<open>do ... while (!validCoords)\<close> loop of one slot.  \<open>calls\<close> counts the calls of
  \<open>Math.random\<close>, \<open>attempts\<close> is the source's counter before the body runs.  The
  result is the state of the locals when the loop is left:
  \<open>(calls, attempts, validCoords, lat, lng)\<close>.
\<close>

function attempt_loop ::
  "env \<Rightarrow> bounds \<Rightarrow> geojson \<Rightarrow> nat \<Rightarrow> nat \<Rightarrow>
     (error \<times> nat) + (nat \<times> nat \<times> bool \<times> jsnum \<times> jsnum)" where
  "attempt_loop e b geojson calls attempts =
     (let lat = js_add (minLat b)
                  (js_mul (Fin (random e calls)) (js_sub (maxLat b) (minLat b)));
          lng = js_add (minLng b)
                  (js_mul (Fin (random e (calls + 1))) (js_sub (maxLng b) (minLng b)))
      in case isPointInBoundary lat lng geojson of
           Inl err \<Rightarrow> Inl (err, calls + 2)
         | Inr validCoords \<Rightarrow>
             if attempts + 1 > 100
             then Inr (calls + 2, attempts + 1, validCoords, lat, lng)
             else if \<not> validCoords
             then attempt_loop e b geojson (calls + 2) (attempts + 1)
             else Inr (calls + 2, attempts + 1, validCoords, lat, lng))"
  by pat_completeness auto
termination
  by (relation "measure (\<lambda>(e, b, geojson, calls, attempts). 101 - attempts)") auto

declare attempt_loop.simps [simp del]

text \<open>
  The body of the \<open>for\<close> loop for index \<open>i\<close>.  An exception leaves the state as it
  was when thrown.
\<close>

definition iteration ::
  "env \<Rightarrow> CollectorConfig \<Rightarrow> bounds \<Rightarrow> geojson \<Rightarrow> nat \<Rightarrow> state \<Rightarrow> (error \<times> state) + state" where
  "iteration e config b geojson i s =
     (let s1 = s\<lparr> currentStatus := statusMessages ! ((i + 1) mod length statusMessages) \<rparr>
      in case attempt_loop e b geojson (randomCalls s1) 0 of
           Inl (err, calls) \<Rightarrow> Inl (err, s1\<lparr> randomCalls := calls \<rparr>)
         | Inr (calls, attempts, validCoords, lat, lng) \<Rightarrow>
             let s2 = s1\<lparr> randomCalls := calls \<rparr>;
                 s3 = (if validCoords
                       then s2\<lparr> results := results s2 @
                                  [\<lparr> panoid = ''sv_'' @ take 12 (drop 2 (toString36 e (random e calls))),
                                     latitude = lat,
                                     longitude = lng,
                                     timestamp = now e i \<rparr>],
                                randomCalls := calls + 1 \<rparr>
                       else s2)
             in Inr (s3\<lparr> progress := (real (i + 1) / real_of_int (targetCount config)) * 100 \<rparr>))"

text \<open>\<^verbatim>\<open>for (let i = 0; i < config.targetCount; i++)\<close>\<close>

function collection_loop ::
  "env \<Rightarrow> CollectorConfig \<Rightarrow> bounds \<Rightarrow> geojson \<Rightarrow> nat \<Rightarrow> state \<Rightarrow> (error \<times> state) + state" where
  "collection_loop e config b geojson i s =
     (if int i < targetCount config
      then (case iteration e config b geojson i s of
              Inl es \<Rightarrow> Inl es
            | Inr s' \<Rightarrow> collection_loop e config b geojson (i + 1) s')
      else Inr s)"
  by pat_completeness auto
termination
  by (relation "measure (\<lambda>(e, config, b, geojson, i, s). nat (targetCount config - int i))") auto

declare collection_loop.simps [simp del]

text \<open>The \<open>try\<close> block.\<close>

definition try_block :: "env \<Rightarrow> CollectorConfig \<Rightarrow> boundary_file \<Rightarrow> state \<Rightarrow> (error \<times> state) + state" where
  "try_block e config f s =
     (case f of
        Inl err \<Rightarrow> Inl (err, s)
      | Inr geojsonData \<Rightarrow>
          (case getBoundaryBounds geojsonData of
             Inl err \<Rightarrow> Inl (err, s)
           | Inr b \<Rightarrow>
               (case collection_loop e config b geojsonData 0
                       (s\<lparr> currentStatus := ''Boundary file parsed successfully'' \<rparr>) of
                  Inl es \<Rightarrow> Inl es
                | Inr s' \<Rightarrow>
                    Inr (s'\<lparr> currentStatus := ''Collection completed successfully'',
                             toasts := toasts s' @ [CollectionCompleted (targetCount config)] \<rparr>))))"

definition simulateCollection :: "env \<Rightarrow> CollectorConfig \<Rightarrow> state \<Rightarrow> state" where
  "simulateCollection e config s =
     (let s1 = s\<lparr> isCollecting := True, progress := 0, results := [] \<rparr>
      in case boundingFile config of
           None \<Rightarrow> s1\<lparr> toasts := toasts s1 @ [NoBoundaryFile], isCollecting := False \<rparr>
         | Some f \<Rightarrow>
             (case try_block e config f s1 of
                Inl (err, s2) \<Rightarrow> s2\<lparr> toasts := toasts s2 @ [CollectionFailed], isCollecting := False \<rparr>
              | Inr s2 \<Rightarrow> s2\<lparr> isCollecting := False \<rparr>))"

text \<open>
  \<^verbatim>\<open>config.boundingFile && config.startingUrl && config.targetCount > 0\<close>, as the
  truth value the button's \<open>disabled\<close> attribute takes of it.
\<close>

definition canStartCollection :: "CollectorConfig \<Rightarrow> bool" where
  "canStartCollection config =
     (boundingFile config \<noteq> None \<and> startingUrl config \<noteq> [] \<and> targetCount config > 0)"

text \<open>\<^verbatim>\<open>disabled={!canStartCollection || isCollecting}\<close> of the start button.\<close>

definition startDisabled :: "CollectorConfig \<Rightarrow> state \<Rightarrow> bool" where
  "startDisabled config s = (\<not> canStartCollection config \<or> isCollecting s)"

section \<open>The specification's containment test\<close>

text \<open>
  The even-odd rule as the specification words it, to be compared with
  \<open>pointInPolygon\<close>.  An edge joins vertex \<open>i\<close> and vertex \<open>i - 1\<close>, with the last
  vertex before vertex \<open>0\<close>.  Its endpoints straddle the point's latitude when one
  endpoint's latitude is strictly greater and the other's is not greater.  The
  ray-intersection longitude is the longitude at which the line through the endpoints
  meets the point's latitude.
\<close>

definition straddles :: "jsnum \<Rightarrow> position \<Rightarrow> position \<Rightarrow> bool" where
  "straddles lat v w =
     ((js_gt (snd v) lat \<and> \<not> js_gt (snd w) lat) \<or>
      (js_gt (snd w) lat \<and> \<not> js_gt (snd v) lat))"

definition ray_intersection_lng :: "jsnum \<Rightarrow> position \<Rightarrow> position \<Rightarrow> jsnum" where
  "ray_intersection_lng lat v w =
     js_add (js_div (js_mul (js_sub (fst w) (fst v)) (js_sub lat (snd v)))
                    (js_sub (snd w) (snd v)))
            (fst v)"

definition edge_crossed :: "jsnum \<Rightarrow> jsnum \<Rightarrow> position \<Rightarrow> position \<Rightarrow> bool" where
  "edge_crossed lat lng v w =
     (straddles lat v w \<and> js_gt (ray_intersection_lng lat v w) lng)"

definition previous_vertex :: "position list \<Rightarrow> nat \<Rightarrow> position" where
  "previous_vertex polygon i = polygon ! ((i + length polygon - 1) mod length polygon)"

definition even_odd_containment :: "jsnum \<Rightarrow> jsnum \<Rightarrow> position list \<Rightarrow> bool" where
  "even_odd_containment lat lng polygon =
     foldl (\<lambda>inside i.
              if edge_crossed lat lng (polygon ! i) (previous_vertex polygon i)
              then \<not> inside else inside)
       False [0..<length polygon]"

text \<open>
  The edges the loop of \<open>pointInPolygon\<close> visits, as pairs
  \<open>(polygon[i], polygon[j])\<close>: every vertex with the one before it, the first with
  the last.
\<close>

definition polygon_edges :: "position list \<Rightarrow> (position \<times> position) list" where
  "polygon_edges polygon = zip polygon (last polygon # butlast polygon)"

section \<open>What the boundary functions read of a document\<close>

text \<open>
  A feature is read when its geometry is \<open>null\<close> (the read throws) or its geometry's
  type is \<open>'Polygon'\<close>; of a Polygon only \<open>coordinates[0]\<close> is read.
  \<open>polygonsOnly\<close> drops every other feature and every other ring.
\<close>

definition isPolygonFeature :: "geojson_feature \<Rightarrow> bool" where
  "isPolygonFeature feature =
     (case geometry feature of None \<Rightarrow> True | Some g \<Rightarrow> gtype g = ''Polygon'')"

definition firstRingOnly :: "geojson_feature \<Rightarrow> geojson_feature" where
  "firstRingOnly feature =
     feature\<lparr> geometry := map_option (\<lambda>g. g\<lparr> coordinates := take 1 (coordinates g) \<rparr>)
                              (geometry feature) \<rparr>"

definition polygonsOnly :: "geojson_feature list \<Rightarrow> geojson_feature list" where
  "polygonsOnly fs = map firstRingOnly (filter isPolygonFeature fs)"

text \<open>
  The polygons of a boundary, in the specification's sense: the first ring of every
  feature whose geometry type is \<open>'Polygon'\<close>.
\<close>

fun boundaryPolygons_features :: "geojson_feature list \<Rightarrow> position list list" where
  "boundaryPolygons_features [] = []"
| "boundaryPolygons_features (feature # rest) =
     (case geometry feature of
        None \<Rightarrow> boundaryPolygons_features rest
      | Some g \<Rightarrow>
          if gtype g = ''Polygon''
          then take 1 (coordinates g) @ boundaryPolygons_features rest
          else boundaryPolygons_features rest)"

definition boundaryPolygons :: "geojson \<Rightarrow> position list list" where
  "boundaryPolygons geojson =
     (case geojson of
        None \<Rightarrow> []
      | Some doc \<Rightarrow> (case features doc of None \<Rightarrow> [] | Some fs \<Rightarrow> boundaryPolygons_features fs))"

text \<open>
  A document is readable when no read of it throws: every feature has a geometry and
  every Polygon has a ring.
\<close>

definition readableFeature :: "geojson_feature \<Rightarrow> bool" where
  "readableFeature feature =
     (case geometry feature of
        None \<Rightarrow> False
      | Some g \<Rightarrow> gtype g \<noteq> ''Polygon'' \<or> coordinates g \<noteq> [])"

definition readable :: "geojson \<Rightarrow> bool" where
  "readable geojson =
     (case geojson of
        None \<Rightarrow> True
      | Some doc \<Rightarrow> (case features doc of None \<Rightarrow> True | Some fs \<Rightarrow> list_all readableFeature fs))"

text \<open>A position is numeric when neither component is \<open>NaN\<close>.\<close>

definition numeric :: "position \<Rightarrow> bool" where
  "numeric v = (fst v \<noteq> NaN \<and> snd v \<noteq> NaN)"

text \<open>A box covers a position when the position lies between its extents.\<close>

definition covers :: "bounds \<Rightarrow> position \<Rightarrow> bool" where
  "covers b v =
     (js_le (minLat b) (snd v) \<and> js_le (snd v) (maxLat b) \<and>
      js_le (minLng b) (fst v) \<and> js_le (fst v) (maxLng b))"

section \<open>Auxiliary notions for the sampler and the bounds\<close>

text \<open>The state a run of the loop ends in, whether it ended by an exception or not.\<close>

definition state_of :: "(error \<times> state) + state \<Rightarrow> state" where
  "state_of r = (case r of Inl (err, s) \<Rightarrow> s | Inr s \<Rightarrow> s)"

text \<open>A sampled point passes containment when \<open>isPointInBoundary\<close> returns true on it.\<close>

definition passesContainment :: "geojson \<Rightarrow> StreetViewResult \<Rightarrow> bool" where
  "passesContainment geojson p =
     (isPointInBoundary (latitude p) (longitude p) geojson = Inr True)"

text \<open>A box none of whose extents is \<open>NaN\<close>.\<close>

definition numericBounds :: "bounds \<Rightarrow> bool" where
  "numericBounds b =
     (minLat b \<noteq> NaN \<and> maxLat b \<noteq> NaN \<and> minLng b \<noteq> NaN \<and> maxLng b \<noteq> NaN)"

section \<open>Example inputs\<close>

definition polygonFeature :: "position list list \<Rightarrow> geojson_feature" where
  "polygonFeature rings = \<lparr> geometry = Some \<lparr> gtype = ''Polygon'', coordinates = rings \<rparr> \<rparr>"

definition featureCollection :: "geojson_feature list \<Rightarrow> geojson" where
  "featureCollection fs = Some \<lparr> features = Some fs \<rparr>"

text \<open>The square of the specification's scenarios and a smaller square inside it.\<close>

definition square :: "position list" where
  "square = [(Fin 0, Fin 0), (Fin 0, Fin 10), (Fin 10, Fin 10), (Fin 10, Fin 0)]"

definition hole :: "position list" where
  "hole = [(Fin 4, Fin 4), (Fin 4, Fin 6), (Fin 6, Fin 6), (Fin 6, Fin 4)]"

definition squareDoc :: geojson where
  "squareDoc = featureCollection [polygonFeature [square]]"

definition holedDoc :: geojson where
  "holedDoc = featureCollection [polygonFeature [square, hole]]"

definition emptyDoc :: geojson where
  "emptyDoc = featureCollection []"

text \<open>The component's initial state and configuration.\<close>

definition initialState :: state where
  "initialState =
     \<lparr> isCollecting = False, progress = 0, results = [], currentStatus = [],
       toasts = [], randomCalls = 0 \<rparr>"

definition initialConfig :: CollectorConfig where
  "initialConfig =
     \<lparr> boundingFile = None, startingUrl = [], targetCount = 100,
       density = None, fixedZoom = None \<rparr>"

definition configFor :: "geojson \<Rightarrow> int \<Rightarrow> CollectorConfig" where
  "configFor geojson n =
     initialConfig\<lparr> boundingFile := Some (Inr geojson),
                    startingUrl := ''https://www.google.com/maps'',
                    targetCount := n \<rparr>"

text \<open>An environment whose \<open>Math.random()\<close> always returns one half.\<close>

definition halfEnv :: env where
  "halfEnv =
     \<lparr> random = (\<lambda>k. 1 / 2), toString36 = (\<lambda>r. ''0.i''),
       now = (\<lambda>i. ''2024-01-01T00:00:00.000Z'') \<rparr>"

text \<open>A document whose only feature is a Point, and the bounding box of the square.\<close>

definition pointOnlyDoc :: geojson where
  "pointOnlyDoc =
     featureCollection [\<lparr> geometry = Some \<lparr> gtype = ''Point'', coordinates = [] \<rparr> \<rparr>]"

definition squareBounds :: bounds where
  "squareBounds = \<lparr> minLat = Fin 0, maxLat = Fin 10, minLng = Fin 0, maxLng = Fin 10 \<rparr>"

text \<open>
  A triangle whose hypotenuse passes through the centre of its bounding box, and an
  environment whose \<open>Math.random()\<close> returns one half for its first \<open>200\<close> calls and
  one eighth afterwards.
\<close>

definition triangle :: "position list" where
  "triangle = [(Fin 0, Fin 0), (Fin 10, Fin 0), (Fin 0, Fin 10)]"

definition triangleDoc :: geojson where
  "triangleDoc = featureCollection [polygonFeature [triangle]]"

definition lateEnv :: env where
  "lateEnv =
     \<lparr> random = (\<lambda>k. if k < 200 then 1 / 2 else 1 / 8), toString36 = (\<lambda>r. ''0.4i''),
       now = (\<lambda>i. ''2024-01-01T00:00:00.000Z'') \<rparr>"

section \<open>Properties of the containment test\<close>

lemma crossing_edge_crossed: "crossing x y v w = edge_crossed y x v w"
  by (cases v; cases w)
     (auto simp: crossing_def edge_crossed_def straddles_def ray_intersection_lng_def js_lt_def)

lemma foldl_toggle:
  "foldl (\<lambda>ins k. if P k then \<not> ins else ins) b ks = (b \<noteq> odd (length (filter P ks)))"
  by (induction ks arbitrary: b) auto

text \<open>The loop, from index \<open>i\<close> on, is a left fold over the remaining indices.\<close>

lemma loop_foldl:
  "j = (if i = 0 then length ps - 1 else i - 1) \<Longrightarrow>
   pointInPolygon_loop x y ps i j inside =
     foldl (\<lambda>ins k. if crossing x y (ps ! k) (ps ! (if k = 0 then length ps - 1 else k - 1))
                     then \<not> ins else ins) inside [i..<length ps]"
proof (induction x y ps i j inside rule: pointInPolygon_loop.induct)
  case (1 x y polygon i j inside)
  show ?case
  proof (cases "i < length polygon")
    case True
    have "pointInPolygon_loop x y polygon i j inside =
          pointInPolygon_loop x y polygon (i + 1) i
            (if crossing x y (polygon ! i) (polygon ! j) then \<not> inside else inside)"
      using True by (subst pointInPolygon_loop.simps) simp
    also have "\<dots> =
          foldl (\<lambda>ins k. if crossing x y (polygon ! k)
                               (polygon ! (if k = 0 then length polygon - 1 else k - 1))
                          then \<not> ins else ins)
            (if crossing x y (polygon ! i) (polygon ! j) then \<not> inside else inside)
            [i + 1..<length polygon]"
      using "1.IH" [OF True] by simp
    finally show ?thesis
      using True "1.prems" by (simp add: upt_conv_Cons)
  next
    case False
    then show ?thesis
      by (subst pointInPolygon_loop.simps) simp
  qed
qed

lemma previous_vertex_nth:
  "k < length ps \<Longrightarrow> previous_vertex ps k = ps ! (if k = 0 then length ps - 1 else k - 1)"
  by (cases k) (auto simp: previous_vertex_def mod_Suc)

lemma edges_nth:
  "map (\<lambda>k. (ps ! k, ps ! (if k = 0 then length ps - 1 else k - 1))) [0..<length ps] =
   polygon_edges ps"
proof (cases "ps = []")
  case True
  then show ?thesis by (simp add: polygon_edges_def)
next
  case False
  then have len: "length (last ps # butlast ps) = length ps" by (cases ps) auto
  show ?thesis
    unfolding polygon_edges_def
  proof (rule nth_equalityI)
    show "length (map (\<lambda>k. (ps ! k, ps ! (if k = 0 then length ps - 1 else k - 1)))
                   [0..<length ps]) =
          length (zip ps (last ps # butlast ps))"
      using len by simp
  next
    fix k
    assume "k < length (map (\<lambda>k. (ps ! k, ps ! (if k = 0 then length ps - 1 else k - 1)))
                          [0..<length ps])"
    then have k: "k < length ps" by simp
    then show "map (\<lambda>k. (ps ! k, ps ! (if k = 0 then length ps - 1 else k - 1)))
                 [0..<length ps] ! k =
               zip ps (last ps # butlast ps) ! k"
      using False len by (cases k) (auto simp: last_conv_nth nth_butlast)
  qed
qed

text \<open>The result is the parity of the number of crossed edges.\<close>

lemma pointInPolygon_edges:
  "pointInPolygon (x, y) ps =
   odd (length (filter (\<lambda>(v, w). crossing x y v w) (polygon_edges ps)))"
proof -
  have "pointInPolygon (x, y) ps =
        odd (length (filter (\<lambda>k. crossing x y (ps ! k)
                                    (ps ! (if k = 0 then length ps - 1 else k - 1)))
                       [0..<length ps]))"
    unfolding pointInPolygon_def by (simp add: loop_foldl foldl_toggle)
  also have "\<dots> =
        odd (length (filter (\<lambda>(v, w). crossing x y v w)
               (map (\<lambda>k. (ps ! k, ps ! (if k = 0 then length ps - 1 else k - 1)))
                  [0..<length ps])))"
    by (simp add: filter_map comp_def)
  finally show ?thesis by (simp only: edges_nth)
qed

lemma edges_rotate1: "polygon_edges (rotate1 ps) = rotate1 (polygon_edges ps)"
proof (cases ps)
  case Nil
  then show ?thesis by (simp add: polygon_edges_def)
next
  case (Cons a rest)
  have split: "a # rest = butlast (a # rest) @ [last (a # rest)]"
    by (rule append_butlast_last_id [symmetric]) simp
  have "polygon_edges (rotate1 ps) = zip (rest @ [a]) (a # rest)"
    using Cons by (simp add: polygon_edges_def butlast_append)
  also have "\<dots> = zip (rest @ [a]) (butlast (a # rest) @ [last (a # rest)])"
    using split by simp
  also have "\<dots> = zip rest (butlast (a # rest)) @ [(a, last (a # rest))]"
    by (subst zip_append) simp_all
  also have "\<dots> = rotate1 (polygon_edges ps)"
    using Cons by (simp add: polygon_edges_def)
  finally show ?thesis .
qed

lemma filter_rotate1_length: "length (filter P (rotate1 xs)) = length (filter P xs)"
  by (cases xs) auto

lemma pointInPolygon_rotate1: "pointInPolygon p (rotate1 ps) = pointInPolygon p ps"
  by (cases p) (simp add: pointInPolygon_edges edges_rotate1 filter_rotate1_length)

text \<open>Evaluation of the containment test on the square of the scenarios.\<close>

lemma square_contains_5_5: "pointInPolygon (Fin 5, Fin 5) square"
  by (simp add: pointInPolygon_edges polygon_edges_def square_def crossing_def
        js_lt_def js_sub_def)

lemma square_excludes_15_15: "\<not> pointInPolygon (Fin 15, Fin 15) square"
  by (simp add: pointInPolygon_edges polygon_edges_def square_def crossing_def
        js_lt_def js_sub_def)

text \<open>
  C5.  For every point \<open>(lat, lng)\<close> and every vertex list, \<open>pointInPolygon\<close>
  returns the even-odd ray-casting result the specification describes: over the edges
  (vertex \<open>i\<close>, vertex \<open>i - 1\<close> with wraparound) a flag that starts false is
  toggled exactly on the edges whose endpoints straddle the point's latitude and whose
  ray-intersection longitude exceeds the point's longitude, and the final flag is
  returned.
\<close>

theorem pointInPolygon_is_even_odd:
  "pointInPolygon (lng, lat) polygon = even_odd_containment lat lng polygon"
proof -
  have "pointInPolygon (lng, lat) polygon =
        foldl (\<lambda>ins k. if crossing lng lat (polygon ! k)
                             (polygon ! (if k = 0 then length polygon - 1 else k - 1))
                        then \<not> ins else ins) False [0..<length polygon]"
    unfolding pointInPolygon_def by (simp add: loop_foldl)
  also have "\<dots> = even_odd_containment lat lng polygon"
    unfolding even_odd_containment_def
    by (rule foldl_cong) (auto simp: previous_vertex_nth crossing_edge_crossed)
  finally show ?thesis .
qed

theorem pointInPolygon_is_even_odd_witness:
  "even_odd_containment (Fin 5) (Fin 5) square \<and>
   \<not> even_odd_containment (Fin 15) (Fin 15) square"
  using pointInPolygon_is_even_odd [of "Fin 5" "Fin 5" square]
    pointInPolygon_is_even_odd [of "Fin 15" "Fin 15" square]
    square_contains_5_5 square_excludes_15_15
  by simp

text \<open>
  C6.  For every query point and every vertex list, \<open>pointInPolygon\<close> returns the
  same result on the list rotated cyclically to start at another vertex.
\<close>

theorem pointInPolygon_rotate:
  "pointInPolygon p (rotate k polygon) = pointInPolygon p polygon"
  by (induction k) (simp_all add: pointInPolygon_rotate1)

theorem pointInPolygon_rotate_witness:
  "pointInPolygon (Fin 5, Fin 5)
     [(Fin 0, Fin 10), (Fin 10, Fin 10), (Fin 10, Fin 0), (Fin 0, Fin 0)] \<and>
   \<not> pointInPolygon (Fin 15, Fin 15)
     [(Fin 0, Fin 10), (Fin 10, Fin 10), (Fin 10, Fin 0), (Fin 0, Fin 0)]"
  using pointInPolygon_rotate [of "(Fin 5, Fin 5)" 1 square]
    pointInPolygon_rotate [of "(Fin 15, Fin 15)" 1 square]
    square_contains_5_5 square_excludes_15_15
  by (simp add: square_def)

section \<open>Order and extrema of JavaScript numbers, and the bounds scan\<close>

lemma js_le_trans: "js_le a b \<Longrightarrow> js_le b c \<Longrightarrow> js_le a c"
  by (cases a; cases b; cases c) auto

lemma js_le_refl: "a \<noteq> NaN \<Longrightarrow> js_le a a"
  by (cases a) auto

lemma js_min_le1: "a \<noteq> NaN \<Longrightarrow> b \<noteq> NaN \<Longrightarrow> js_le (js_min a b) a"
  by (cases a; cases b) auto

lemma js_min_le2: "a \<noteq> NaN \<Longrightarrow> b \<noteq> NaN \<Longrightarrow> js_le (js_min a b) b"
  by (cases a; cases b) auto

lemma js_max_ge1: "a \<noteq> NaN \<Longrightarrow> b \<noteq> NaN \<Longrightarrow> js_le a (js_max a b)"
  by (cases a; cases b) auto

lemma js_max_ge2: "a \<noteq> NaN \<Longrightarrow> b \<noteq> NaN \<Longrightarrow> js_le b (js_max a b)"
  by (cases a; cases b) auto

lemma js_min_numeric: "a \<noteq> NaN \<Longrightarrow> b \<noteq> NaN \<Longrightarrow> js_min a b \<noteq> NaN"
  by (cases a; cases b) auto

lemma js_max_numeric: "a \<noteq> NaN \<Longrightarrow> b \<noteq> NaN \<Longrightarrow> js_max a b \<noteq> NaN"
  by (cases a; cases b) auto

lemma scanVertex_numeric:
  "numericBounds b \<Longrightarrow> numeric v \<Longrightarrow> numericBounds (scanVertex v b)"
  by (cases v) (simp add: numericBounds_def numeric_def scanVertex_def js_min_numeric js_max_numeric)

lemma scanVertex_covers_self:
  "numericBounds b \<Longrightarrow> numeric v \<Longrightarrow> covers (scanVertex v b) v"
  by (cases v)
     (simp add: numericBounds_def numeric_def scanVertex_def covers_def
        js_min_le2 js_max_ge2)

lemma scanVertex_covers_mono:
  assumes "numericBounds b" and "numeric v" and "covers b w"
  shows "covers (scanVertex v b) w"
proof -
  obtain lng lat where v: "v = (lng, lat)" by (cases v)
  have n: "lng \<noteq> NaN" "lat \<noteq> NaN" "minLat b \<noteq> NaN" "maxLat b \<noteq> NaN"
    "minLng b \<noteq> NaN" "maxLng b \<noteq> NaN"
    using assms(1,2) v by (simp_all add: numericBounds_def numeric_def)
  have "js_le (js_min (minLat b) lat) (snd w)"
    using js_le_trans [OF js_min_le1 [OF n(3) n(2)]] assms(3) by (simp add: covers_def)
  moreover have "js_le (snd w) (js_max (maxLat b) lat)"
    using js_le_trans [OF _ js_max_ge1 [OF n(4) n(2)]] assms(3) by (simp add: covers_def)
  moreover have "js_le (js_min (minLng b) lng) (fst w)"
    using js_le_trans [OF js_min_le1 [OF n(5) n(1)]] assms(3) by (simp add: covers_def)
  moreover have "js_le (fst w) (js_max (maxLng b) lng)"
    using js_le_trans [OF _ js_max_ge1 [OF n(6) n(1)]] assms(3) by (simp add: covers_def)
  ultimately show ?thesis
    by (simp add: covers_def scanVertex_def v)
qed

lemma fold_scanVertex:
  "numericBounds b \<Longrightarrow> list_all numeric ring \<Longrightarrow>
   numericBounds (fold scanVertex ring b) \<and>
   (\<forall>w. covers b w \<longrightarrow> covers (fold scanVertex ring b) w) \<and>
   (\<forall>v \<in> set ring. covers (fold scanVertex ring b) v)"
proof (induction ring arbitrary: b)
  case Nil
  then show ?case by simp
next
  case (Cons v ring)
  have nb: "numericBounds (scanVertex v b)"
    using Cons.prems by (simp add: scanVertex_numeric)
  have IH: "numericBounds (fold scanVertex ring (scanVertex v b)) \<and>
   (\<forall>w. covers (scanVertex v b) w \<longrightarrow> covers (fold scanVertex ring (scanVertex v b)) w) \<and>
   (\<forall>u \<in> set ring. covers (fold scanVertex ring (scanVertex v b)) u)"
    using Cons.IH [OF nb] Cons.prems by simp
  have self: "covers (scanVertex v b) v"
    using Cons.prems by (simp add: scanVertex_covers_self)
  have mono: "\<And>w. covers b w \<Longrightarrow> covers (scanVertex v b) w"
    using Cons.prems by (simp add: scanVertex_covers_mono)
  have "\<forall>w. covers b w \<longrightarrow> covers (fold scanVertex ring (scanVertex v b)) w"
    using IH mono by blast
  moreover have "covers (fold scanVertex ring (scanVertex v b)) v"
    using IH self by blast
  then have "\<forall>u \<in> set (v # ring). covers (fold scanVertex ring (scanVertex v b)) u"
    using IH by simp
  ultimately show ?case
    using IH by simp
qed

lemma getBoundaryBounds_features_covers:
  "getBoundaryBounds_features fs b = Inr b' \<Longrightarrow> numericBounds b \<Longrightarrow>
   list_all (list_all numeric) (boundaryPolygons_features fs) \<Longrightarrow>
   numericBounds b' \<and>
   (\<forall>w. covers b w \<longrightarrow> covers b' w) \<and>
   (\<forall>ring \<in> set (boundaryPolygons_features fs). \<forall>v \<in> set ring. covers b' v)"
proof (induction fs arbitrary: b)
  case Nil
  then show ?case by simp
next
  case (Cons feature rest)
  show ?case
  proof (cases "geometry feature")
    case None
    with Cons.prems show ?thesis by simp
  next
    case (Some g)
    show ?thesis
    proof (cases "gtype g = ''Polygon''")
      case False
      with Some Cons show ?thesis by simp
    next
      case True
      show ?thesis
      proof (cases "coordinates g")
        case Nil
        with Some True Cons.prems show ?thesis by simp
      next
        case (Cons ring others)
        have run: "getBoundaryBounds_features rest (fold scanVertex ring b) = Inr b'"
          using Cons.prems(1) Some True Cons by simp
        have num: "list_all numeric ring" "list_all (list_all numeric) (boundaryPolygons_features rest)"
          using Cons.prems(3) Some True Cons by simp_all
        note F = fold_scanVertex [OF Cons.prems(2) num(1)]
        have R: "numericBounds b' \<and>
           (\<forall>w. covers (fold scanVertex ring b) w \<longrightarrow> covers b' w) \<and>
           (\<forall>ring \<in> set (boundaryPolygons_features rest). \<forall>v \<in> set ring. covers b' v)"
          using Cons.IH [OF run _ num(2)] F by simp
        have rings: "boundaryPolygons_features (feature # rest) = ring # boundaryPolygons_features rest"
          using Some True Cons by simp
        show ?thesis
          unfolding rings using F R by auto
      qed
    qed
  qed
qed

lemma getBoundaryBounds_features_total:
  "list_all readableFeature fs \<Longrightarrow> \<exists>b'. getBoundaryBounds_features fs b = Inr b'"
proof (induction fs arbitrary: b)
  case Nil
  then show ?case by simp
next
  case (Cons feature rest)
  then show ?case
    by (auto simp: readableFeature_def split: option.splits list.splits)
qed

lemma covers_ordered:
  "covers b v \<Longrightarrow> js_le (minLat b) (maxLat b) \<and> js_le (minLng b) (maxLng b)"
  unfolding covers_def by (blast intro: js_le_trans)

lemma initialBounds_numeric: "numericBounds initialBounds"
  by (simp add: numericBounds_def initialBounds_def)

lemma squareDoc_bounds:
  "getBoundaryBounds squareDoc =
     Inr \<lparr> minLat = Fin 0, maxLat = Fin 10, minLng = Fin 0, maxLng = Fin 10 \<rparr>"
  by (simp add: getBoundaryBounds_def squareDoc_def featureCollection_def polygonFeature_def
        square_def initialBounds_def scanVertex_def)

lemma getBoundaryBounds_features_no_vertex:
  "list_all readableFeature fs \<Longrightarrow>
   list_all (\<lambda>ring. ring = []) (boundaryPolygons_features fs) \<Longrightarrow>
   getBoundaryBounds_features fs b = Inr b"
proof (induction fs)
  case Nil
  then show ?case by simp
next
  case (Cons feature rest)
  then show ?case
    by (auto simp: readableFeature_def split: option.splits list.splits)
qed

lemma isPointInBoundary_features_polygonsOnly:
  "isPointInBoundary_features lat lng (polygonsOnly fs) = isPointInBoundary_features lat lng fs"
proof (induction fs)
  case Nil
  then show ?case by (simp add: polygonsOnly_def)
next
  case (Cons feature rest)
  then show ?case
    by (auto simp: polygonsOnly_def isPolygonFeature_def firstRingOnly_def
          split: option.splits list.splits)
qed

lemma getBoundaryBounds_features_polygonsOnly:
  "getBoundaryBounds_features (polygonsOnly fs) b = getBoundaryBounds_features fs b"
proof (induction fs arbitrary: b)
  case Nil
  then show ?case by (simp add: polygonsOnly_def)
next
  case (Cons feature rest)
  then show ?case
    by (auto simp: polygonsOnly_def isPolygonFeature_def firstRingOnly_def
          split: option.splits list.splits)
qed

lemma hole_contains_5_5: "pointInPolygon (Fin 5, Fin 5) hole"
  by (simp add: pointInPolygon_edges polygon_edges_def hole_def crossing_def
        js_lt_def js_sub_def)

section \<open>The retry loop and the collection loop\<close>

lemma attempt_loop_sound:
  "attempt_loop e b geojson calls attempts = Inr (calls', attempts', valid, lat, lng) \<Longrightarrow>
   isPointInBoundary lat lng geojson = Inr valid"
proof (induction e b geojson calls attempts rule: attempt_loop.induct)
  case (1 e b geojson calls attempts)
  show ?case
    using "1.prems" "1.IH"
    by (subst (asm) attempt_loop.simps) (auto simp: Let_def split: sum.splits if_splits)
qed

lemma attempt_loop_count:
  "attempt_loop e b geojson calls attempts = Inr (calls', attempts', valid, lat, lng) \<Longrightarrow>
   attempts \<le> 100 \<Longrightarrow>
   attempts < attempts' \<and> attempts' \<le> 101 \<and> calls' = calls + 2 * (attempts' - attempts) \<and>
   (valid \<or> attempts' = 101)"
proof (induction "100 - attempts" arbitrary: calls attempts)
  case 0
  then have "attempts = 100" by simp
  then show ?case
    using "0.prems"(1)
    by (subst (asm) attempt_loop.simps) (auto simp: Let_def split: sum.splits)
next
  case (Suc n)
  then have lt: "attempts < 100" by simp
  let ?lat = "js_add (minLat b) (js_mul (Fin (random e calls)) (js_sub (maxLat b) (minLat b)))"
  let ?lng = "js_add (minLng b)
                (js_mul (Fin (random e (calls + 1))) (js_sub (maxLng b) (minLng b)))"
  show ?case
  proof (cases "isPointInBoundary ?lat ?lng geojson")
    case (Inl err)
    then show ?thesis
      using Suc.prems(1) by (subst (asm) attempt_loop.simps) (simp add: Let_def)
  next
    case (Inr validCoords)
    show ?thesis
    proof (cases validCoords)
      case True
      then show ?thesis
        using Suc.prems(1) Inr lt
        by (subst (asm) attempt_loop.simps) (auto simp: Let_def)
    next
      case False
      then have rec: "attempt_loop e b geojson (calls + 2) (attempts + 1) =
                      Inr (calls', attempts', valid, lat, lng)"
        using Suc.prems(1) Inr lt
        by (subst (asm) attempt_loop.simps) (simp add: Let_def)
      have "n = 100 - (attempts + 1)" using Suc.hyps(2) by simp
      from Suc.hyps(1) [OF this rec] lt show ?thesis by auto
    qed
  qed
qed

lemma attempt_loop_never_valid:
  "(\<And>lat lng. isPointInBoundary lat lng geojson = Inr False) \<Longrightarrow> attempts \<le> 100 \<Longrightarrow>
   \<exists>lat lng. attempt_loop e b geojson calls attempts =
     Inr (calls + 2 * (101 - attempts), 101, False, lat, lng)"
proof (induction "100 - attempts" arbitrary: calls attempts)
  case 0
  then have "attempts = 100" by simp
  then show ?case
    using "0.prems"(1) by (subst attempt_loop.simps) (simp add: Let_def)
next
  case (Suc n)
  then have lt: "attempts < 100" by simp
  have "n = 100 - (attempts + 1)" using Suc.hyps(2) by simp
  from Suc.hyps(1) [OF this Suc.prems(1), of "calls + 2"] lt
  obtain lat lng where "attempt_loop e b geojson (calls + 2) (attempts + 1) =
       Inr (calls + 2 + 2 * (101 - (attempts + 1)), 101, False, lat, lng)"
    by auto
  moreover have "calls + 2 + 2 * (101 - (attempts + 1)) = calls + 2 * (101 - attempts)"
    using lt by simp
  ultimately show ?case
    using Suc.prems(1) lt by (subst attempt_loop.simps) (simp add: Let_def)
qed

lemma iteration_results:
  "results (state_of (iteration e config b geojson i s)) = results s \<or>
   (\<exists>p. results (state_of (iteration e config b geojson i s)) = results s @ [p] \<and>
        passesContainment geojson p)"
  by (auto simp: iteration_def state_of_def Let_def passesContainment_def
        split: sum.splits prod.splits dest: attempt_loop_sound)

lemma iteration_toasts:
  "toasts (state_of (iteration e config b geojson i s)) = toasts s"
  by (auto simp: iteration_def state_of_def Let_def split: sum.splits prod.splits)

lemma iteration_exhausted:
  "attempt_loop e b geojson (randomCalls s) 0 = Inr (calls, attempts, False, lat, lng) \<Longrightarrow>
   \<exists>s'. iteration e config b geojson i s = Inr s' \<and> results s' = results s \<and> toasts s' = toasts s"
  by (simp add: iteration_def Let_def)

lemma collection_loop_results:
  "list_all (passesContainment geojson) (results s) \<Longrightarrow>
   list_all (passesContainment geojson)
     (results (state_of (collection_loop e config b geojson i s)))"
proof (induction e config b geojson i s rule: collection_loop.induct)
  case (1 e config b geojson i s)
  show ?case
  proof (cases "int i < targetCount config")
    case False
    then show ?thesis
      using "1.prems" by (subst collection_loop.simps) (simp add: state_of_def)
  next
    case True
    have step: "list_all (passesContainment geojson)
                  (results (state_of (iteration e config b geojson i s)))"
      using iteration_results [of e config b geojson i s] "1.prems" by auto
    show ?thesis
    proof (cases "iteration e config b geojson i s")
      case (Inl es)
      then show ?thesis
        using True step by (subst collection_loop.simps) simp
    next
      case (Inr s')
      then show ?thesis
        using True step "1.IH" [OF True Inr] 
        by (subst collection_loop.simps) (simp add: state_of_def)
    qed
  qed
qed

lemma collection_loop_length:
  "length (results (state_of (collection_loop e config b geojson i s)))
     \<le> length (results s) + nat (targetCount config - int i)"
proof (induction e config b geojson i s rule: collection_loop.induct)
  case (1 e config b geojson i s)
  show ?case
  proof (cases "int i < targetCount config")
    case False
    then show ?thesis
      by (subst collection_loop.simps) (simp add: state_of_def)
  next
    case True
    have step: "length (results (state_of (iteration e config b geojson i s)))
                  \<le> length (results s) + 1"
      using iteration_results [of e config b geojson i s] by auto
    show ?thesis
    proof (cases "iteration e config b geojson i s")
      case (Inl es)
      then show ?thesis
        using True step by (subst collection_loop.simps) simp
    next
      case (Inr s')
      have "length (results (state_of (collection_loop e config b geojson (i + 1) s')))
              \<le> length (results s') + nat (targetCount config - int (i + 1))"
        by (rule "1.IH" [OF True Inr])
      moreover have "length (results s') \<le> length (results s) + 1"
        using step Inr by (simp add: state_of_def)
      moreover have "collection_loop e config b geojson i s =
                     collection_loop e config b geojson (i + 1) s'"
        using True Inr by (subst collection_loop.simps) simp
      ultimately show ?thesis using True by simp
    qed
  qed
qed

lemma collection_loop_toasts:
  "toasts (state_of (collection_loop e config b geojson i s)) = toasts s"
proof (induction e config b geojson i s rule: collection_loop.induct)
  case (1 e config b geojson i s)
  show ?case
  proof (cases "int i < targetCount config")
    case False
    then show ?thesis
      by (subst collection_loop.simps) (simp add: state_of_def)
  next
    case True
    note step = iteration_toasts [of e config b geojson i s]
    show ?thesis
    proof (cases "iteration e config b geojson i s")
      case (Inl es)
      then show ?thesis
        using True step by (subst collection_loop.simps) simp
    next
      case (Inr s')
      then show ?thesis
        using True step "1.IH" [OF True Inr]
        by (subst collection_loop.simps) (simp add: state_of_def)
    qed
  qed
qed

lemma collection_loop_never_valid:
  "(\<And>lat lng. isPointInBoundary lat lng geojson = Inr False) \<Longrightarrow>
   \<exists>s'. collection_loop e config b geojson i s = Inr s' \<and> results s' = results s \<and>
        toasts s' = toasts s"
proof (induction e config b geojson i s rule: collection_loop.induct)
  case (1 e config b geojson i s)
  show ?case
  proof (cases "int i < targetCount config")
    case False
    then show ?thesis
      by (subst collection_loop.simps) simp
  next
    case True
    obtain lat lng where "attempt_loop e b geojson (randomCalls s) 0 =
        Inr (randomCalls s + 2 * (101 - 0), 101, False, lat, lng)"
      using attempt_loop_never_valid [OF "1.prems", of 0 e b "randomCalls s"] by auto
    then obtain s' where s': "iteration e config b geojson i s = Inr s'"
        "results s' = results s" "toasts s' = toasts s"
      using iteration_exhausted by blast
    obtain s'' where "collection_loop e config b geojson (i + 1) s' = Inr s''"
        "results s'' = results s'" "toasts s'' = toasts s'"
      using "1.IH" [OF True s'(1) "1.prems"] by blast
    then show ?thesis
      using True s' by (subst collection_loop.simps) simp
  qed
qed

lemma collection_loop_zero:
  "targetCount config \<le> 0 \<Longrightarrow> collection_loop e config b geojson 0 s = Inr s"
  by (subst collection_loop.simps) simp

lemma simulateCollection_results:
  "results (simulateCollection e config s) =
     (case boundingFile config of
        None \<Rightarrow> []
      | Some f \<Rightarrow> results (state_of (try_block e config f
                     (s\<lparr> isCollecting := True, progress := 0, results := [] \<rparr>))))"
  by (auto simp: simulateCollection_def Let_def state_of_def split: option.splits sum.splits)

lemma try_block_results:
  "results (state_of (try_block e config f s)) =
     (case f of
        Inl err \<Rightarrow> results s
      | Inr geojsonData \<Rightarrow>
          (case getBoundaryBounds geojsonData of
             Inl err \<Rightarrow> results s
           | Inr b \<Rightarrow> results (state_of (collection_loop e config b geojsonData 0
                        (s\<lparr> currentStatus := ''Boundary file parsed successfully'' \<rparr>)))))"
  by (auto simp: try_block_def state_of_def split: sum.splits)

lemma attempt_loop_coords:
  "attempt_loop e b geojson calls attempts = Inr (calls', attempts', valid, lat, lng) \<Longrightarrow>
   attempts \<le> 100 \<Longrightarrow>
   lat = js_add (minLat b) (js_mul (Fin (random e (calls' - 2))) (js_sub (maxLat b) (minLat b))) \<and>
   lng = js_add (minLng b) (js_mul (Fin (random e (calls' - 1))) (js_sub (maxLng b) (minLng b)))"
proof (induction "100 - attempts" arbitrary: calls attempts)
  case 0
  then have "attempts = 100" by simp
  then show ?case
    using "0.prems"(1)
    by (subst (asm) attempt_loop.simps) (auto simp: Let_def split: sum.splits)
next
  case (Suc n)
  then have lt: "attempts < 100" by simp
  let ?lat = "js_add (minLat b) (js_mul (Fin (random e calls)) (js_sub (maxLat b) (minLat b)))"
  let ?lng = "js_add (minLng b)
                (js_mul (Fin (random e (calls + 1))) (js_sub (maxLng b) (minLng b)))"
  show ?case
  proof (cases "isPointInBoundary ?lat ?lng geojson")
    case (Inl err)
    then show ?thesis
      using Suc.prems(1) by (subst (asm) attempt_loop.simps) (simp add: Let_def)
  next
    case (Inr validCoords)
    show ?thesis
    proof (cases validCoords)
      case True
      then show ?thesis
        using Suc.prems(1) Inr lt
        by (subst (asm) attempt_loop.simps) (auto simp: Let_def)
    next
      case False
      then have rec: "attempt_loop e b geojson (calls + 2) (attempts + 1) =
                      Inr (calls', attempts', valid, lat, lng)"
        using Suc.prems(1) Inr lt
        by (subst (asm) attempt_loop.simps) (simp add: Let_def)
      have "n = 100 - (attempts + 1)" using Suc.hyps(2) by simp
      from Suc.hyps(1) [OF this rec] lt show ?thesis by auto
    qed
  qed
qed

lemma boundingFile_configFor: "boundingFile (configFor geojson n) = Some (Inr geojson)"
  by (simp add: configFor_def)

lemma targetCount_configFor: "targetCount (configFor geojson n) = n"
  by (simp add: configFor_def)

lemma initialState_fields:
  "results initialState = []" "toasts initialState = []" "randomCalls initialState = 0"
  by (simp_all add: initialState_def)

lemma isPointInBoundary_emptyDoc: "isPointInBoundary lat lng emptyDoc = Inr False"
  by (simp add: isPointInBoundary_def emptyDoc_def featureCollection_def)

lemma isPointInBoundary_squareDoc_5_5: "isPointInBoundary (Fin 5) (Fin 5) squareDoc = Inr True"
  by (simp add: isPointInBoundary_def squareDoc_def featureCollection_def polygonFeature_def
        square_contains_5_5)

lemma getBoundaryBounds_emptyDoc: "getBoundaryBounds emptyDoc = Inr initialBounds"
  by (simp add: getBoundaryBounds_def emptyDoc_def featureCollection_def)

lemma attempt_loop_emptyDoc:
  "attempt_loop halfEnv initialBounds emptyDoc 0 0 = Inr (202, 101, False, NaN, NaN)"
proof -
  obtain lat lng where run: "attempt_loop halfEnv initialBounds emptyDoc 0 0 =
      Inr (0 + 2 * (101 - 0), 101, False, lat, lng)"
    using attempt_loop_never_valid [of emptyDoc 0 halfEnv initialBounds 0]
    by (auto simp: isPointInBoundary_emptyDoc)
  have "lat = NaN \<and> lng = NaN"
    using attempt_loop_coords [OF run]
    by (simp add: initialBounds_def halfEnv_def js_sub_def)
  then show ?thesis using run by simp
qed

lemma simulateCollection_completed:
  assumes "boundingFile config = Some (Inr geojson)"
    and "getBoundaryBounds geojson = Inr b"
    and "collection_loop e config b geojson 0
           (s\<lparr> isCollecting := True, progress := 0, results := [],
                currentStatus := ''Boundary file parsed successfully'' \<rparr>) = Inr s'"
  shows "simulateCollection e config s =
           s'\<lparr> currentStatus := ''Collection completed successfully'',
                toasts := toasts s' @ [CollectionCompleted (targetCount config)],
                isCollecting := False \<rparr>"
  using assms by (simp add: simulateCollection_def try_block_def Let_def)

lemma isPointInBoundary_no_features:
  "geojson = None \<or> geojson = Some \<lparr> features = None \<rparr> \<Longrightarrow>
   isPointInBoundary lat lng geojson = Inr False"
  by (auto simp: isPointInBoundary_def)

lemma getBoundaryBounds_no_features:
  "geojson = None \<or> geojson = Some \<lparr> features = None \<rparr> \<Longrightarrow>
   getBoundaryBounds geojson = Inr initialBounds"
  by (auto simp: getBoundaryBounds_def)

lemma attempt_loop_squareDoc:
  "attempt_loop halfEnv squareBounds squareDoc calls 0 = Inr (calls + 2, 1, True, Fin 5, Fin 5)"
  by (subst attempt_loop.simps)
     (simp add: Let_def squareBounds_def halfEnv_def js_sub_def isPointInBoundary_squareDoc_5_5)

lemma collection_loop_step:
  "int i < targetCount config \<Longrightarrow> iteration e config b geojson i s = Inr s' \<Longrightarrow>
   collection_loop e config b geojson i s = collection_loop e config b geojson (i + 1) s'"
  by (subst collection_loop.simps) simp

lemma collection_loop_done:
  "\<not> int i < targetCount config \<Longrightarrow> collection_loop e config b geojson i s = Inr s"
  by (subst collection_loop.simps) simp

lemma iteration_squareDoc:
  "\<exists>s'. iteration halfEnv config squareBounds squareDoc i s = Inr s' \<and>
        results s' = results s @
          [\<lparr> panoid = ''sv_i'', latitude = Fin 5, longitude = Fin 5,
             timestamp = ''2024-01-01T00:00:00.000Z'' \<rparr>]"
  by (simp add: iteration_def Let_def attempt_loop_squareDoc; simp add: halfEnv_def)

lemma collection_loop_squareDoc_1:
  "results (state_of (collection_loop halfEnv (configFor squareDoc 1) squareBounds squareDoc 0 s)) =
     results s @ [\<lparr> panoid = ''sv_i'', latitude = Fin 5, longitude = Fin 5,
                    timestamp = ''2024-01-01T00:00:00.000Z'' \<rparr>]"
proof -
  obtain s' where s': "iteration halfEnv (configFor squareDoc 1) squareBounds squareDoc 0 s = Inr s'"
    "results s' = results s @
          [\<lparr> panoid = ''sv_i'', latitude = Fin 5, longitude = Fin 5,
             timestamp = ''2024-01-01T00:00:00.000Z'' \<rparr>]"
    using iteration_squareDoc by blast
  have "collection_loop halfEnv (configFor squareDoc 1) squareBounds squareDoc 0 s =
        collection_loop halfEnv (configFor squareDoc 1) squareBounds squareDoc (0 + 1) s'"
    by (rule collection_loop_step [OF _ s'(1)]) (simp add: targetCount_configFor)
  also have "\<dots> = Inr s'"
    by (rule collection_loop_done) (simp add: targetCount_configFor)
  finally show ?thesis
    using s'(2) by (simp add: state_of_def)
qed

lemma simulateCollection_squareDoc_1:
  "results (simulateCollection halfEnv (configFor squareDoc 1) initialState) =
     [\<lparr> panoid = ''sv_i'', latitude = Fin 5, longitude = Fin 5,
        timestamp = ''2024-01-01T00:00:00.000Z'' \<rparr>]"
proof -
  have f: "boundingFile (configFor squareDoc 1) = Some (Inr squareDoc)"
    by (simp add: configFor_def)
  show ?thesis
    by (simp add: simulateCollection_results f try_block_results squareDoc_bounds
        squareBounds_def [symmetric] collection_loop_squareDoc_1)
qed

section \<open>The claims about the bounds calculator and the boundary check\<close>

text \<open>
  C2 does not hold as stated: on the empty feature collection the bounds calculator
  does not fail; it returns infinite bounds.
\<close>

theorem getBoundaryBounds_without_vertices_counterexample:
  "getBoundaryBounds emptyDoc =
     Inr \<lparr> minLat = PosInf, maxLat = NegInf, minLng = PosInf, maxLng = NegInf \<rparr>"
  by (simp add: getBoundaryBounds_def emptyDoc_def featureCollection_def initialBounds_def)

text \<open>
  C2, as the code has it.  On a document that can be read and in which no Polygon's
  first ring has a vertex (no features, no Polygon feature, or empty rings only),
  \<open>getBoundaryBounds\<close> raises no error: it returns the box it started from, with
  \<open>minLat = minLng = Infinity\<close> and \<open>maxLat = maxLng = -Infinity\<close>.
\<close>

theorem getBoundaryBounds_without_vertices:
  assumes "readable geojson"
    and "list_all (\<lambda>ring. ring = []) (boundaryPolygons geojson)"
  shows "getBoundaryBounds geojson =
     Inr \<lparr> minLat = PosInf, maxLat = NegInf, minLng = PosInf, maxLng = NegInf \<rparr>"
  using assms
  by (auto simp: getBoundaryBounds_def readable_def boundaryPolygons_def initialBounds_def [symmetric]
      getBoundaryBounds_features_no_vertex split: option.splits)

text \<open>The theorem at a concrete input.\<close>

theorem getBoundaryBounds_without_vertices_witness:
  "getBoundaryBounds pointOnlyDoc =
     Inr \<lparr> minLat = PosInf, maxLat = NegInf, minLng = PosInf, maxLng = NegInf \<rparr>"
proof -
  have r: "readable pointOnlyDoc"
    by (simp add: readable_def pointOnlyDoc_def featureCollection_def readableFeature_def)
  have e: "list_all (\<lambda>ring. ring = []) (boundaryPolygons pointOnlyDoc)"
    by (simp add: boundaryPolygons_def pointOnlyDoc_def featureCollection_def)
  show ?thesis by (rule getBoundaryBounds_without_vertices [OF r e])
qed

text \<open>
  C8.  For a readable document with numeric coordinates and at least one Polygon whose
  first ring has a vertex, \<open>getBoundaryBounds\<close> returns a box with
  \<open>minLat \<le> maxLat\<close> and \<open>minLng \<le> maxLng\<close> that covers every vertex of every
  polygon of the boundary.
\<close>

theorem getBoundaryBounds_ordered_and_covering:
  assumes "readable geojson"
    and "list_all (list_all numeric) (boundaryPolygons geojson)"
    and "list_ex (\<lambda>ring. ring \<noteq> []) (boundaryPolygons geojson)"
  shows "\<exists>b. getBoundaryBounds geojson = Inr b \<and>
             js_le (minLat b) (maxLat b) \<and> js_le (minLng b) (maxLng b) \<and>
             (\<forall>ring \<in> set (boundaryPolygons geojson). \<forall>v \<in> set ring. covers b v)"
proof -
  from assms(3) obtain doc fs where g: "geojson = Some doc" "features doc = Some fs"
    by (auto simp: boundaryPolygons_def split: option.splits)
  have rd: "list_all readableFeature fs"
    using assms(1) g by (simp add: readable_def)
  obtain b where b: "getBoundaryBounds_features fs initialBounds = Inr b"
    using getBoundaryBounds_features_total [OF rd] by blast
  have num: "list_all (list_all numeric) (boundaryPolygons_features fs)"
    using assms(2) g by (simp add: boundaryPolygons_def)
  have cov: "\<forall>ring \<in> set (boundaryPolygons_features fs). \<forall>v \<in> set ring. covers b v"
    using getBoundaryBounds_features_covers [OF b initialBounds_numeric num] by simp
  obtain ring where ring: "ring \<in> set (boundaryPolygons_features fs)" "ring \<noteq> []"
    using assms(3) g by (auto simp: boundaryPolygons_def list_ex_iff)
  from ring(2) obtain v where "v \<in> set ring" by (cases ring) auto
  with ring have "covers b v" using cov by blast
  then have ord: "js_le (minLat b) (maxLat b) \<and> js_le (minLng b) (maxLng b)"
    by (rule covers_ordered)
  have "getBoundaryBounds geojson = Inr b"
    using b g by (simp add: getBoundaryBounds_def)
  moreover have "\<forall>ring \<in> set (boundaryPolygons geojson). \<forall>v \<in> set ring. covers b v"
    using cov g by (simp add: boundaryPolygons_def)
  ultimately show ?thesis using ord by blast
qed

text \<open>The theorem at a concrete input.\<close>

theorem getBoundaryBounds_ordered_and_covering_witness:
  "js_le (Fin 0) (Fin 10) \<and> covers \<lparr> minLat = Fin 0, maxLat = Fin 10, minLng = Fin 0, maxLng = Fin 10 \<rparr> (Fin 10, Fin 0)"
proof -
  have r: "readable squareDoc"
    by (simp add: readable_def squareDoc_def featureCollection_def polygonFeature_def readableFeature_def)
  have p: "boundaryPolygons squareDoc = [square]"
    by (simp add: boundaryPolygons_def squareDoc_def featureCollection_def polygonFeature_def)
  have n: "list_all (list_all numeric) (boundaryPolygons squareDoc)"
    unfolding p by (simp add: square_def numeric_def)
  have e: "list_ex (\<lambda>ring. ring \<noteq> []) (boundaryPolygons squareDoc)"
    unfolding p by (simp add: square_def)
  show ?thesis
    using getBoundaryBounds_ordered_and_covering [OF r n e] by (simp add: squareDoc_bounds p square_def)
qed

text \<open>
  C9.  On a document that is \<open>null\<close>/\<open>undefined\<close> or has no \<open>features\<close>,
  \<open>isPointInBoundary\<close> returns false for every point, and a run of
  \<open>simulateCollection\<close> over such a document accepts no point and completes without
  an exception.
\<close>

theorem isPointInBoundary_without_features:
  "isPointInBoundary lat lng None = Inr False \<and>
   isPointInBoundary lat lng (Some \<lparr> features = None \<rparr>) = Inr False \<and>
   (geojson = None \<or> geojson = Some \<lparr> features = None \<rparr> \<longrightarrow>
      results (simulateCollection e (config\<lparr> boundingFile := Some (Inr geojson) \<rparr>) s) = [] \<and>
      toasts (simulateCollection e (config\<lparr> boundingFile := Some (Inr geojson) \<rparr>) s) =
        toasts s @ [CollectionCompleted (targetCount config)])"
proof -
  have "results (simulateCollection e (config\<lparr> boundingFile := Some (Inr geojson) \<rparr>) s) = [] \<and>
      toasts (simulateCollection e (config\<lparr> boundingFile := Some (Inr geojson) \<rparr>) s) =
        toasts s @ [CollectionCompleted (targetCount config)]"
    if g: "geojson = None \<or> geojson = Some \<lparr> features = None \<rparr>"
  proof -
    let ?config = "config\<lparr> boundingFile := Some (Inr geojson) \<rparr>"
    let ?s1 = "s\<lparr> isCollecting := True, progress := 0, results := [],
                   currentStatus := ''Boundary file parsed successfully'' \<rparr>"
    have f: "boundingFile ?config = Some (Inr geojson)" by simp
    obtain s' where s': "collection_loop e ?config initialBounds geojson 0 ?s1 = Inr s'"
        "results s' = results ?s1" "toasts s' = toasts ?s1"
      using collection_loop_never_valid [of geojson e ?config initialBounds 0 ?s1]
        isPointInBoundary_no_features [OF g] by blast
    show ?thesis
      using simulateCollection_completed [OF f getBoundaryBounds_no_features [OF g] s'(1)] s'(2,3)
      by simp
  qed
  then show ?thesis
    by (simp add: isPointInBoundary_def)
qed

text \<open>The theorem at a concrete input.\<close>

theorem isPointInBoundary_without_features_witness:
  "isPointInBoundary (Fin 5) (Fin 5) None = Inr False \<and>
   results (simulateCollection halfEnv
              ((configFor squareDoc 3)\<lparr> boundingFile := Some (Inr None) \<rparr>) initialState) = [] \<and>
   toasts (simulateCollection halfEnv
             ((configFor squareDoc 3)\<lparr> boundingFile := Some (Inr None) \<rparr>) initialState) =
     [CollectionCompleted 3]"
  using isPointInBoundary_without_features [of "Fin 5" "Fin 5" None halfEnv "configFor squareDoc 3" initialState]
  by (simp add: targetCount_configFor initialState_fields)

text \<open>
  C10.  \<open>isPointInBoundary\<close> and \<open>getBoundaryBounds\<close> return the same on a feature
  list and on the list reduced to its features of geometry type \<open>'Polygon'\<close>, each
  cut down to its first ring: other geometries and further rings are ignored.  So the
  point \<open>(5, 5)\<close>, which lies inside the hole ring of the holed square, is reported
  inside the boundary.
\<close>

theorem only_first_ring_of_polygons:
  "isPointInBoundary lat lng (featureCollection (polygonsOnly fs)) =
     isPointInBoundary lat lng (featureCollection fs) \<and>
   getBoundaryBounds (featureCollection (polygonsOnly fs)) =
     getBoundaryBounds (featureCollection fs) \<and>
   pointInPolygon (Fin 5, Fin 5) hole \<and>
   isPointInBoundary (Fin 5) (Fin 5) holedDoc = Inr True"
  by (simp add: isPointInBoundary_def getBoundaryBounds_def featureCollection_def
        isPointInBoundary_features_polygonsOnly getBoundaryBounds_features_polygonsOnly
        hole_contains_5_5 holedDoc_def polygonFeature_def square_contains_5_5)

text \<open>The theorem at a concrete input.\<close>

theorem only_first_ring_of_polygons_witness:
  "isPointInBoundary (Fin 5) (Fin 5) (featureCollection (polygonsOnly [polygonFeature [square, hole]])) =
     Inr True"
  using only_first_ring_of_polygons [of "Fin 5" "Fin 5" "[polygonFeature [square, hole]]"]
  by (simp add: holedDoc_def)

section \<open>The claims about the sampler\<close>

text \<open>
  C1.  Every point in the result sequence of a run of \<open>simulateCollection\<close> passes
  the containment test against the boundary document of the run:
  \<open>isPointInBoundary\<close> returns true on its latitude and longitude.  A point is
  appended only after the test accepted it.
\<close>

theorem sampled_points_pass_containment:
  "\<forall>p \<in> set (results (simulateCollection e config s)).
     \<exists>geojson. boundingFile config = Some (Inr geojson) \<and>
       isPointInBoundary (latitude p) (longitude p) geojson = Inr True"
proof (cases "boundingFile config")
  case None
  then show ?thesis by (simp add: simulateCollection_results)
next
  case (Some f)
  show ?thesis
  proof (cases f)
    case (Inl err)
    then show ?thesis using Some by (simp add: simulateCollection_results try_block_results)
  next
    case (Inr geojsonData)
    show ?thesis
    proof (cases "getBoundaryBounds geojsonData")
      case (Inl err)
      then show ?thesis
        using Some Inr by (simp add: simulateCollection_results try_block_results)
    next
      case b: (Inr b)
      have "list_all (passesContainment geojsonData)
              (results (state_of (collection_loop e config b geojsonData 0
                 (s\<lparr> isCollecting := True, progress := 0, results := [],
                      currentStatus := ''Boundary file parsed successfully'' \<rparr>))))"
        by (rule collection_loop_results) simp
      then show ?thesis
        using Some Inr b
        by (simp add: simulateCollection_results try_block_results list_all_iff
              passesContainment_def)
    qed
  qed
qed

text \<open>The theorem at a concrete input.\<close>

theorem sampled_points_pass_containment_witness:
  "results (simulateCollection halfEnv (configFor squareDoc 1) initialState) =
     [\<lparr> panoid = ''sv_i'', latitude = Fin 5, longitude = Fin 5,
        timestamp = ''2024-01-01T00:00:00.000Z'' \<rparr>] \<and>
   isPointInBoundary (Fin 5) (Fin 5) squareDoc = Inr True"
  using sampled_points_pass_containment [of halfEnv "configFor squareDoc 1" initialState]
  by (simp add: simulateCollection_squareDoc_1 boundingFile_configFor)

text \<open>
  C3.  The retry loop of one slot always returns and draws at most \<open>101\<close> candidate
  pairs (\<open>attempt_loop_count\<close>); where no candidate is contained it draws exactly
  \<open>101\<close> (\<open>attempt_loop_never_valid\<close>).  On the empty feature collection: the bounds
  are the initial box, and the loop is left with \<open>attempts = 101\<close> after \<open>202\<close> calls
  of \<open>Math.random\<close>, that is after \<open>101\<close> candidate pairs were drawn and tested, one
  more than the \<open>100\<close> the code's own warning names.
\<close>

theorem attempt_loop_runs_101_times:
  "getBoundaryBounds emptyDoc = Inr initialBounds \<and>
   attempt_loop halfEnv initialBounds emptyDoc 0 0 = Inr (202, 101, False, NaN, NaN)"
  by (simp add: getBoundaryBounds_emptyDoc attempt_loop_emptyDoc)

text \<open>The theorem at a concrete input.\<close>

theorem attempt_loop_runs_101_times_witness:
  "attempt_loop halfEnv initialBounds emptyDoc 0 0 \<noteq> Inr (200, 100, False, NaN, NaN)"
  using attempt_loop_runs_101_times by simp

text \<open>
  C4 does not hold as stated: a run with \<open>N = 0\<close> over the square ends with the
  completion toast and no result, not with a failure.
\<close>

theorem nonpositive_count_completes_counterexample:
  "toasts (simulateCollection halfEnv (configFor squareDoc 0) initialState) =
     [CollectionCompleted 0] \<and>
   results (simulateCollection halfEnv (configFor squareDoc 0) initialState) = []"
proof -
  have z: "targetCount (configFor squareDoc 0) \<le> 0" by (simp add: configFor_def)
  have f: "boundingFile (configFor squareDoc 0) = Some (Inr squareDoc)"
    by (simp add: configFor_def)
  show ?thesis
    using simulateCollection_completed [OF f squareDoc_bounds collection_loop_zero [OF z]]
    by (simp add: initialState_def configFor_def)
qed

text \<open>
  C4, as the code has it.  With a count \<open>N \<le> 0\<close> the start button is disabled
  (\<open>canStartCollection\<close> is false).  \<open>simulateCollection\<close> itself has no failure for
  such a count: run on a boundary file that parses and whose bounds are computed, it
  performs no iteration and reports completion with an empty result sequence.
\<close>

theorem nonpositive_count_completes:
  assumes "targetCount config \<le> 0"
  shows "\<not> canStartCollection config \<and> startDisabled config s \<and>
         (boundingFile config = Some (Inr geojson) \<and> getBoundaryBounds geojson = Inr b \<longrightarrow>
            results (simulateCollection e config s) = [] \<and>
            toasts (simulateCollection e config s) =
              toasts s @ [CollectionCompleted (targetCount config)])"
proof -
  have gate: "\<not> canStartCollection config"
    using assms by (simp add: canStartCollection_def)
  have "results (simulateCollection e config s) = [] \<and>
        toasts (simulateCollection e config s) =
          toasts s @ [CollectionCompleted (targetCount config)]"
    if f: "boundingFile config = Some (Inr geojson)" and b: "getBoundaryBounds geojson = Inr b"
    using simulateCollection_completed [OF f b collection_loop_zero [OF assms]] by simp
  then show ?thesis
    using gate by (simp add: startDisabled_def)
qed

text \<open>The theorem at a concrete input.\<close>

theorem nonpositive_count_completes_witness:
  "\<not> canStartCollection (configFor squareDoc (- 1)) \<and>
   results (simulateCollection halfEnv (configFor squareDoc (- 1)) initialState) = [] \<and>
   toasts (simulateCollection halfEnv (configFor squareDoc (- 1)) initialState) =
     [CollectionCompleted (- 1)]"
proof -
  have z: "targetCount (configFor squareDoc (- 1)) \<le> 0" by (simp add: configFor_def)
  have f: "boundingFile (configFor squareDoc (- 1)) = Some (Inr squareDoc)"
    by (simp add: configFor_def)
  show ?thesis
    using nonpositive_count_completes [OF z, of initialState squareDoc
        "\<lparr> minLat = Fin 0, maxLat = Fin 10, minLng = Fin 0, maxLng = Fin 10 \<rparr>" halfEnv]
      f squareDoc_bounds
    by (simp add: initialState_def configFor_def)
qed

text \<open>
  The result sequence of a request of \<open>N\<close> points has at most \<open>N\<close> elements (none
  when \<open>N\<close> is negative), and one iteration of the loop leaves the sequence as it was
  or appends exactly one point.
\<close>

lemma simulateCollection_results_length:
  "int (length (results (simulateCollection e config s))) \<le> max 0 (targetCount config)"
proof -
  have loop: "int (length (results (state_of (collection_loop e config b' g 0 s'))))
          \<le> max 0 (targetCount config)" if "results s' = []" for b' g s'
    using collection_loop_length [of e config b' g 0 s'] that by simp
  show ?thesis
  proof (cases "boundingFile config")
    case None
    then show ?thesis by (simp add: simulateCollection_results)
  next
    case (Some f)
    show ?thesis
    proof (cases f)
      case (Inl err)
      then show ?thesis using Some by (simp add: simulateCollection_results try_block_results)
    next
      case (Inr geojsonData)
      show ?thesis
      proof (cases "getBoundaryBounds geojsonData")
        case (Inl err)
        then show ?thesis
          using Some Inr by (simp add: simulateCollection_results try_block_results)
      next
        case bd: (Inr bd)
        show ?thesis
          using Some Inr bd
          by (simp add: simulateCollection_results try_block_results loop)
      qed
    qed
  qed
qed

lemma iteration_appends_at_most_one:
  "results (state_of (iteration e config b geojson i s)) = results s \<or>
   (\<exists>p. results (state_of (iteration e config b geojson i s)) = results s @ [p])"
  using iteration_results [of e config b geojson i s] by blast

text \<open>
  The retry loop over the triangle in the late environment: the first \<open>100\<close> candidates
  are \<open>(5, 5)\<close>, on the hypotenuse and rejected; the \<open>101\<close>st is \<open>(1.25, 1.25)\<close> and
  contained.
\<close>

lemma triangle_excludes_5_5: "\<not> pointInPolygon (Fin 5, Fin 5) triangle"
  by (simp add: pointInPolygon_edges polygon_edges_def triangle_def crossing_def
        js_lt_def js_sub_def)

lemma triangle_contains_late: "pointInPolygon (Fin (5 / 4), Fin (5 / 4)) triangle"
  by (simp add: pointInPolygon_edges polygon_edges_def triangle_def crossing_def
        js_lt_def js_sub_def)

lemma isPointInBoundary_triangleDoc_5_5:
  "isPointInBoundary (Fin 5) (Fin 5) triangleDoc = Inr False"
  by (simp add: isPointInBoundary_def triangleDoc_def featureCollection_def polygonFeature_def
        triangle_excludes_5_5)

lemma isPointInBoundary_triangleDoc_late:
  "isPointInBoundary (Fin (5 / 4)) (Fin (5 / 4)) triangleDoc = Inr True"
  by (simp add: isPointInBoundary_def triangleDoc_def featureCollection_def polygonFeature_def
        triangle_contains_late)

lemma getBoundaryBounds_triangleDoc: "getBoundaryBounds triangleDoc = Inr squareBounds"
  by (simp add: getBoundaryBounds_def triangleDoc_def featureCollection_def polygonFeature_def
        triangle_def initialBounds_def scanVertex_def squareBounds_def)

lemma lateEnv_random:
  "k < 200 \<Longrightarrow> random lateEnv k = 1 / 2" "\<not> k < 200 \<Longrightarrow> random lateEnv k = 1 / 8"
  by (simp_all add: lateEnv_def)

lemma attempt_loop_triangleDoc_from:
  "attempts \<le> 100 \<Longrightarrow>
   attempt_loop lateEnv squareBounds triangleDoc (2 * attempts) attempts =
     Inr (202, 101, True, Fin (5 / 4), Fin (5 / 4))"
proof (induction "100 - attempts" arbitrary: attempts)
  case 0
  then have a: "attempts = 100" by simp
  show ?case
    unfolding a
    by (subst attempt_loop.simps)
       (simp add: Let_def squareBounds_def lateEnv_random js_sub_def
          isPointInBoundary_triangleDoc_late)
next
  case (Suc n)
  then have lt: "attempts < 100" by simp
  have n: "n = 100 - (attempts + 1)" using Suc.hyps(2) by simp
  have rec: "attempt_loop lateEnv squareBounds triangleDoc (2 * (attempts + 1)) (attempts + 1) =
     Inr (202, 101, True, Fin (5 / 4), Fin (5 / 4))"
    using Suc.hyps(1) [OF n] lt by simp
  have r: "random lateEnv (2 * attempts) = 1 / 2" "random lateEnv (Suc (2 * attempts)) = 1 / 2"
    using lt by (simp_all add: lateEnv_random)
  show ?case
    using rec lt
    by (subst attempt_loop.simps)
       (simp add: Let_def squareBounds_def r js_sub_def isPointInBoundary_triangleDoc_5_5)
qed

lemma attempt_loop_triangleDoc:
  "attempt_loop lateEnv squareBounds triangleDoc 0 0 =
     Inr (202, 101, True, Fin (5 / 4), Fin (5 / 4))"
  using attempt_loop_triangleDoc_from [of 0] by simp

lemma iteration_triangleDoc:
  "\<exists>s'. iteration lateEnv config squareBounds triangleDoc i
          (s\<lparr> randomCalls := 0 \<rparr>) = Inr s' \<and>
        results s' = results s @
          [\<lparr> panoid = ''sv_4i'', latitude = Fin (5 / 4), longitude = Fin (5 / 4),
             timestamp = ''2024-01-01T00:00:00.000Z'' \<rparr>]"
  by (simp add: iteration_def Let_def attempt_loop_triangleDoc; simp add: lateEnv_def)

lemma simulateCollection_triangleDoc_1:
  "results (simulateCollection lateEnv (configFor triangleDoc 1) initialState) =
     [\<lparr> panoid = ''sv_4i'', latitude = Fin (5 / 4), longitude = Fin (5 / 4),
        timestamp = ''2024-01-01T00:00:00.000Z'' \<rparr>]"
proof -
  let ?s1 = "initialState\<lparr> isCollecting := True, progress := 0, results := [],
               currentStatus := ''Boundary file parsed successfully'' \<rparr>"
  have s1: "?s1 = ?s1\<lparr> randomCalls := 0 \<rparr>"
    by (simp add: initialState_def)
  obtain s' where s':
    "iteration lateEnv (configFor triangleDoc 1) squareBounds triangleDoc 0
       (?s1\<lparr> randomCalls := 0 \<rparr>) = Inr s'"
    "results s' = results ?s1 @
          [\<lparr> panoid = ''sv_4i'', latitude = Fin (5 / 4), longitude = Fin (5 / 4),
             timestamp = ''2024-01-01T00:00:00.000Z'' \<rparr>]"
    using iteration_triangleDoc [of "configFor triangleDoc 1" 0 ?s1] by blast
  have it: "iteration lateEnv (configFor triangleDoc 1) squareBounds triangleDoc 0 ?s1 = Inr s'"
    using s'(1) s1 by simp
  have "collection_loop lateEnv (configFor triangleDoc 1) squareBounds triangleDoc 0 ?s1 =
        collection_loop lateEnv (configFor triangleDoc 1) squareBounds triangleDoc (0 + 1) s'"
    by (rule collection_loop_step [OF _ it]) (simp add: targetCount_configFor)
  also have "\<dots> = Inr s'"
    by (rule collection_loop_done) (simp add: targetCount_configFor)
  finally have loop:
    "collection_loop lateEnv (configFor triangleDoc 1) squareBounds triangleDoc 0 ?s1 = Inr s'" .
  show ?thesis
    using simulateCollection_completed [OF boundingFile_configFor getBoundaryBounds_triangleDoc loop]
      s'(2)
    by simp
qed

text \<open>
  C7.  A slot whose attempt budget is exhausted still contributes a point.  Over the
  triangle in the late environment, with one point requested, the retry loop is left
  with \<open>attempts = 101\<close>, that is through the branch \<open>attempts > 100\<close> that warns that no
  valid coordinates were found after \<open>100\<close> attempts, and with \<open>validCoords\<close> true for
  the \<open>101\<close>st candidate; the run then appends that candidate to the result sequence.
  The length bound and the bound of one point per iteration do hold
  (\<open>simulateCollection_results_length\<close>, \<open>iteration_appends_at_most_one\<close>).
\<close>

theorem exhausted_slot_appends_point:
  "getBoundaryBounds triangleDoc = Inr squareBounds \<and>
   attempt_loop lateEnv squareBounds triangleDoc 0 0 =
     Inr (202, 101, True, Fin (5 / 4), Fin (5 / 4)) \<and>
   results (simulateCollection lateEnv (configFor triangleDoc 1) initialState) =
     [\<lparr> panoid = ''sv_4i'', latitude = Fin (5 / 4), longitude = Fin (5 / 4),
        timestamp = ''2024-01-01T00:00:00.000Z'' \<rparr>]"
  by (simp add: getBoundaryBounds_triangleDoc attempt_loop_triangleDoc
        simulateCollection_triangleDoc_1)

text \<open>The theorem at a concrete input.\<close>

theorem exhausted_slot_appends_point_witness:
  "length (results (simulateCollection lateEnv (configFor triangleDoc 1) initialState)) = 1"
  using exhausted_slot_appends_point by simp

end
